theory Spec2Isabelle
  imports Main "HOL-Library.Sublist"
begin

section \<open>JavaScript primitives used by the recipes\<close>

text \<open>
  Strings are lists of 8-bit characters. \<open>String.prototype.includes\<close> is the search for a
  contiguous occurrence of the pattern, tried at every start position from the left.
\<close>

fun js_includes :: "string \<Rightarrow> string \<Rightarrow> bool" where
  "js_includes [] p = (p = [])"
| "js_includes (c # cs) p = (prefix p (c # cs) \<or> js_includes cs p)"

text \<open>
  \<open>String.prototype.toLowerCase\<close> on the 8-bit characters: the letters A to Z (codes 65 to
  90) move to a to z, every other character stays.
\<close>

definition lower_char :: "char \<Rightarrow> char" where
  "lower_char c =
     (if 65 \<le> (of_char c :: nat) \<and> (of_char c :: nat) \<le> 90
      then char_of ((of_char c :: nat) + 32) else c)"

definition toLowerCase :: "string \<Rightarrow> string" where
  "toLowerCase s = map lower_char s"

text \<open>
  \<open>Array.prototype.slice(start, end)\<close>: a negative index counts from the end of the array,
  both indices are clamped to the array, and a missing \<open>end\<close> is the length.
\<close>

definition js_slice :: "'a list \<Rightarrow> int \<Rightarrow> int option \<Rightarrow> 'a list" where
  "js_slice xs start end =
     (let len = int (length xs);
          k = (if start < 0 then max (len + start) 0 else min start len);
          e = (case end of None \<Rightarrow> len | Some e' \<Rightarrow> e');
          final = (if e < 0 then max (len + e) 0 else min e len)
      in take (nat (final - k)) (drop (nat k) xs))"

text \<open>
  Division of \<open>bigint\<close> values rounds toward zero. The recipes only divide by the non-zero
  literal \<open>100n\<close>.
\<close>

definition bigint_div :: "int \<Rightarrow> int \<Rightarrow> int" where
  "bigint_div a b = sgn a * sgn b * (\<bar>a\<bar> div \<bar>b\<bar>)"

section \<open>Error taxonomy (utils/contract-helpers, error handling part)\<close>

datatype ErrorType =
    USER_REJECTED
  | INSUFFICIENT_FUNDS
  | NETWORK_ERROR
  | CONTRACT_ERROR
  | VALIDATION_ERROR
  | UNKNOWN_ERROR

text \<open>The \<open>code\<close> property of an error is a number or a string.\<close>

datatype error_code = NumCode int | StrCode string

text \<open>
  A failure value as the classifier reads it: an object whose properties \<open>code\<close>,
  \<open>message\<close> and \<open>reason\<close> may each be absent (\<open>None\<close> is \<open>undefined\<close>).
\<close>

record raw_error =
  err_code :: "error_code option"
  err_message :: "string option"
  err_reason :: "string option"

text \<open>
  \<open>class Web3Error\<close>: the field \<open>type\<close> is \<open>etype\<close> here; \<open>originalError\<close> is the failure
  the error was built from.
\<close>

record Web3Error =
  etype :: ErrorType
  message :: string
  code :: "error_code option"
  originalError :: "raw_error option"

text \<open>
  What a \<open>catch\<close> clause receives: an instance of \<open>Web3Error\<close> (or of a subclass), or any
  other error object.
\<close>

datatype failure = Classified Web3Error | Raw raw_error

text \<open>
  The constructors of the subclasses. A default parameter value replaces an argument that
  is \<open>undefined\<close>, not one that is the empty string.
\<close>

definition UserRejectedError :: "string option \<Rightarrow> raw_error \<Rightarrow> Web3Error" where
  "UserRejectedError m orig =
     \<lparr>etype = USER_REJECTED,
      message = (case m of None \<Rightarrow> ''Transaction rejected by user'' | Some s \<Rightarrow> s),
      code = Some (NumCode 4001), originalError = Some orig\<rparr>"

definition InsufficientFundsError :: "string option \<Rightarrow> raw_error \<Rightarrow> Web3Error" where
  "InsufficientFundsError m orig =
     \<lparr>etype = INSUFFICIENT_FUNDS,
      message = (case m of None \<Rightarrow> ''Insufficient funds for transaction'' | Some s \<Rightarrow> s),
      code = Some (StrCode ''INSUFFICIENT_FUNDS''), originalError = Some orig\<rparr>"

definition NetworkError :: "string option \<Rightarrow> raw_error \<Rightarrow> Web3Error" where
  "NetworkError m orig =
     \<lparr>etype = NETWORK_ERROR,
      message = (case m of None \<Rightarrow> ''Network connection failed'' | Some s \<Rightarrow> s),
      code = Some (StrCode ''NETWORK_ERROR''), originalError = Some orig\<rparr>"

definition ContractError :: "string \<Rightarrow> raw_error \<Rightarrow> Web3Error" where
  "ContractError m orig =
     \<lparr>etype = CONTRACT_ERROR, message = m,
      code = Some (StrCode ''CONTRACT_ERROR''), originalError = Some orig\<rparr>"

definition ValidationError :: "string \<Rightarrow> raw_error \<Rightarrow> Web3Error" where
  "ValidationError m orig =
     \<lparr>etype = VALIDATION_ERROR, message = m,
      code = Some (StrCode ''VALIDATION_ERROR''), originalError = Some orig\<rparr>"

subsection \<open>ErrorParser\<close>

text \<open>
  \<open>extractRevertReason\<close> matches \<open>/revert (.+)'/\<close>. The match starts at the leftmost
  occurrence of \<open>revert\<close> followed by a space for which the rest of that line holds an
  apostrophe after at least one character; the group is greedy, so it ends before the
  last apostrophe of the line. The dot stops at a line terminator (line feed, carriage
  return).
\<close>

definition line_terminator :: "char \<Rightarrow> bool" where
  "line_terminator c = ((of_char c :: nat) = 10 \<or> (of_char c :: nat) = 13)"

fun last_quote :: "string \<Rightarrow> nat option" where
  "last_quote [] = None"
| "last_quote (c # cs) =
     (case last_quote cs of
        Some i \<Rightarrow> Some (Suc i)
      | None \<Rightarrow> (if c = CHR 0x27 then Some 0 else None))"

definition capture_group :: "string \<Rightarrow> string option" where
  "capture_group rest =
     (let line = takeWhile (\<lambda>c. \<not> line_terminator c) rest
      in case last_quote line of
           None \<Rightarrow> None
         | Some i \<Rightarrow> (if i = 0 then None else Some (take i line)))"

fun revert_match :: "string \<Rightarrow> string option" where
  "revert_match [] = None"
| "revert_match (c # cs) =
     (if prefix ''revert '' (c # cs)
      then (case capture_group (drop 7 (c # cs)) of
              Some g \<Rightarrow> Some g
            | None \<Rightarrow> revert_match cs)
      else revert_match cs)"

definition extractRevertReason :: "string \<Rightarrow> string" where
  "extractRevertReason m =
     (case revert_match m of Some g \<Rightarrow> g | None \<Rightarrow> ''Unknown reason'')"

text \<open>\<open>error.message?.includes(p)\<close>: false when the message is absent.\<close>

definition message_includes :: "raw_error \<Rightarrow> string \<Rightarrow> bool" where
  "message_includes e p = (case err_message e of None \<Rightarrow> False | Some m \<Rightarrow> js_includes m p)"

text \<open>A string property is truthy when it is present and not empty.\<close>

definition truthy :: "string option \<Rightarrow> bool" where
  "truthy s = (case s of None \<Rightarrow> False | Some v \<Rightarrow> v \<noteq> [])"

text \<open>
  \<open>error.reason || this.extractRevertReason(error.message)\<close>. The right operand is only
  evaluated in the branch entered with a falsy reason, where the message includes
  \<open>revert\<close> and so is present.
\<close>

definition revertReason :: "raw_error \<Rightarrow> string" where
  "revertReason e =
     (if truthy (err_reason e) then the (err_reason e)
      else extractRevertReason (case err_message e of None \<Rightarrow> [] | Some m \<Rightarrow> m))"

text \<open>\<open>ErrorParser.parse\<close>, branch by branch in the order of the source.\<close>

fun parse :: "failure \<Rightarrow> Web3Error" where
  "parse (Classified w) = w"
| "parse (Raw e) =
     (if err_code e = Some (NumCode 4001) \<or> err_code e = Some (StrCode ''ACTION_REJECTED'')
      then UserRejectedError (err_message e) e
      else if err_code e = Some (StrCode ''INSUFFICIENT_FUNDS'')
      then InsufficientFundsError (err_message e) e
      else if err_code e = Some (StrCode ''NETWORK_ERROR'') \<or> message_includes e ''network''
      then NetworkError (err_message e) e
      else if truthy (err_reason e) \<or> message_includes e ''revert''
      then ContractError (''Contract reverted: '' @ revertReason e) e
      else if err_code e = Some (StrCode ''UNPREDICTABLE_GAS_LIMIT'')
      then ContractError ''Transaction would fail - check parameters'' e
      else \<lparr>etype = UNKNOWN_ERROR,
            message = (if truthy (err_message e) then the (err_message e)
                       else ''An unexpected error occurred''),
            code = err_code e, originalError = Some e\<rparr>)"

subsection \<open>TransactionErrorTracker.isRetryable\<close>

definition isRetryable :: "Web3Error \<Rightarrow> bool" where
  "isRetryable error =
     (if etype error \<in> set [NETWORK_ERROR, UNKNOWN_ERROR] then True
      else if etype error = CONTRACT_ERROR
      then list_ex (\<lambda>msg. js_includes (toLowerCase (message error)) msg)
             [''network'', ''timeout'', ''connection'']
      else False)"

section \<open>GasUtils.estimateGasWithBuffer\<close>

text \<open>
  The estimate comes from the contract (\<open>Inl\<close> when \<open>estimateGas\<close> rejects); the buffer is
  an optional parameter with default 20. Every failure inside the \<open>try\<close> is replaced by
  one fixed error.
\<close>

datatype gas_error = UnableToEstimateGas

definition estimateGasWithBuffer :: "raw_error + int \<Rightarrow> int option \<Rightarrow> gas_error + int" where
  "estimateGasWithBuffer estimate bufferPercent =
     (let buffer = (case bufferPercent of None \<Rightarrow> 20 | Some b \<Rightarrow> b)
      in case estimate of
           Inl err \<Rightarrow> Inl UnableToEstimateGas
         | Inr gasEstimate \<Rightarrow> Inr (bigint_div (gasEstimate * (100 + buffer)) 100))"

section \<open>ErrorHandler.handleWithRetry\<close>

text \<open>
  \<open>maxRetries\<close> and \<open>retryDelay\<close> are the constructor's parameters (defaults 3 and 1000
  milliseconds).
\<close>

record ErrorHandler =
  maxRetries :: int
  retryDelay :: int

definition new_ErrorHandler :: "int option \<Rightarrow> int option \<Rightarrow> ErrorHandler" where
  "new_ErrorHandler mr rd =
     \<lparr>maxRetries = (case mr of None \<Rightarrow> 3 | Some n \<Rightarrow> n),
      retryDelay = (case rd of None \<Rightarrow> 1000 | Some d \<Rightarrow> d)\<rparr>"

text \<open>
  How the returned promise settles: with the operation's value, with a classified error,
  or with \<open>undefined\<close> (the final \<open>throw lastError!\<close> when no attempt was made).
\<close>

datatype 'a settled = Resolved 'a | Rejected Web3Error | RejectedUndefined

text \<open>
  A run of the helper: how it settled, what each invocation of the operation gave (in
  order), the delays waited between invocations (in milliseconds, in order), and the
  state the operation left behind.
\<close>

record ('a, 's) retry_run =
  outcome :: "'a settled"
  invocations :: "(failure + 'a) list"
  waits :: "int list"
  final :: 's

text \<open>
  The operation is effectful: invoked in a state, it gives a value or a failure and a new
  state. The loop is the source's \<open>for (attempt = 0; attempt <= maxRetries; attempt++)\<close>.
\<close>

function handleWithRetry_loop ::
  "ErrorHandler \<Rightarrow> ('s \<Rightarrow> (failure + 'a) \<times> 's) \<Rightarrow> (Web3Error \<Rightarrow> bool) option
   \<Rightarrow> int \<Rightarrow> Web3Error option \<Rightarrow> 's \<Rightarrow> ('a, 's) retry_run" where
  "handleWithRetry_loop h operation shouldRetry attempt lastError s =
     (if attempt \<le> maxRetries h
      then (case operation s of
              (Inr v, s') \<Rightarrow>
                \<lparr>outcome = Resolved v, invocations = [Inr v], waits = [], final = s'\<rparr>
            | (Inl error, s') \<Rightarrow>
                (if etype (parse error) = USER_REJECTED
                 then \<lparr>outcome = Rejected (parse error), invocations = [Inl error],
                       waits = [], final = s'\<rparr>
                 else if (case shouldRetry of None \<Rightarrow> False | Some p \<Rightarrow> \<not> p (parse error))
                 then \<lparr>outcome = Rejected (parse error), invocations = [Inl error],
                       waits = [], final = s'\<rparr>
                 else if attempt = maxRetries h
                 then \<lparr>outcome = Rejected (parse error), invocations = [Inl error],
                       waits = [], final = s'\<rparr>
                 else (let r = handleWithRetry_loop h operation shouldRetry (attempt + 1)
                                 (Some (parse error)) s'
                       in r\<lparr>invocations := Inl error # invocations r,
                            waits := retryDelay h * 2 ^ nat attempt # waits r\<rparr>)))
      else \<lparr>outcome = (case lastError of None \<Rightarrow> RejectedUndefined | Some e \<Rightarrow> Rejected e),
            invocations = [], waits = [], final = s\<rparr>)"
  by pat_completeness auto
termination
  by (relation "measure (\<lambda>(h, operation, shouldRetry, attempt, lastError, s).
                   nat (maxRetries h + 1 - attempt))") auto

definition handleWithRetry ::
  "ErrorHandler \<Rightarrow> ('s \<Rightarrow> (failure + 'a) \<times> 's) \<Rightarrow> (Web3Error \<Rightarrow> bool) option
   \<Rightarrow> 's \<Rightarrow> ('a, 's) retry_run" where
  "handleWithRetry h operation shouldRetry s =
     handleWithRetry_loop h operation shouldRetry 0 None s"

section \<open>ErrorLogger\<close>

text \<open>An entry of the log; the timestamp is the clock reading when it was logged.\<close>

record log_entry =
  entry_timestamp :: nat
  entry_error :: Web3Error
  entry_context :: "string option"

record ErrorLogger =
  logs :: "log_entry list"

definition new_ErrorLogger :: ErrorLogger where
  "new_ErrorLogger = \<lparr>logs = []\<rparr>"

text \<open>
  \<open>log\<close> pushes the entry and keeps the last 100. The console output and the analytics
  hook (an empty method) do not touch the list.
\<close>

definition log :: "nat \<Rightarrow> Web3Error \<Rightarrow> string option \<Rightarrow> ErrorLogger \<Rightarrow> ErrorLogger" where
  "log now err ctx L =
     (let pushed = logs L @ [\<lparr>entry_timestamp = now, entry_error = err, entry_context = ctx\<rparr>]
      in L\<lparr>logs := (if length pushed > 100 then js_slice pushed (- 100) None else pushed)\<rparr>)"

definition getRecentErrors :: "int option \<Rightarrow> ErrorLogger \<Rightarrow> log_entry list" where
  "getRecentErrors limit L =
     js_slice (logs L) (- (case limit of None \<Rightarrow> 10 | Some n \<Rightarrow> n)) None"

definition clearLogs :: "ErrorLogger \<Rightarrow> ErrorLogger" where
  "clearLogs L = L\<lparr>logs := []\<rparr>"

text \<open>Sequences of calls on one logger.\<close>

datatype logger_call = Log nat Web3Error "string option" | ClearLogs

fun logger_step :: "ErrorLogger \<Rightarrow> logger_call \<Rightarrow> ErrorLogger" where
  "logger_step L (Log now err ctx) = log now err ctx L"
| "logger_step L ClearLogs = clearLogs L"

definition logger_run :: "logger_call list \<Rightarrow> ErrorLogger" where
  "logger_run calls = foldl logger_step new_ErrorLogger calls"

text \<open>
  The entries a sequence of calls has logged since its last \<open>clearLogs\<close>, oldest first,
  with nothing trimmed: what the log is compared with.
\<close>

fun logged_since_clear :: "log_entry list \<Rightarrow> logger_call list \<Rightarrow> log_entry list" where
  "logged_since_clear acc [] = acc"
| "logged_since_clear acc (Log now err ctx # cs) =
     logged_since_clear
       (acc @ [\<lparr>entry_timestamp = now, entry_error = err, entry_context = ctx\<rparr>]) cs"
| "logged_since_clear acc (ClearLogs # cs) = logged_since_clear [] cs"

section \<open>The wallet hook (useWallet)\<close>

text \<open>
  \<open>interface WalletState\<close>. Provider and signer objects are opaque handles of types
  \<open>'p\<close> and \<open>'g\<close>; \<open>None\<close> is \<open>null\<close>.
\<close>

record ('p, 'g) WalletState =
  address :: "string option"
  provider :: "'p option"
  signer :: "'g option"
  chainId :: "int option"
  isConnecting :: bool
  error :: "string option"

text \<open>The requests the hook sends to \<open>window.ethereum\<close>.\<close>

datatype rpc_request =
    eth_requestAccounts
  | eth_accounts
  | wallet_switchEthereumChain int

text \<open>
  What the hook reads and writes: its React state, the browser's \<open>localStorage\<close>, and
  the requests its own code has passed to \<open>window.ethereum.request\<close> so far (what the
  provider library sends to the wallet on its own account is not recorded here).
\<close>

record ('p, 'g) hook =
  state :: "('p, 'g) WalletState"
  localStorage :: "string \<rightharpoonup> string"
  sent :: "rpc_request list"

definition initial_WalletState :: "('p, 'g) WalletState" where
  "initial_WalletState =
     \<lparr>address = None, provider = None, signer = None, chainId = None,
      isConnecting = False, error = None\<rparr>"

definition clearError :: "('p, 'g) hook \<Rightarrow> ('p, 'g) hook" where
  "clearError w = w\<lparr>state := (state w)\<lparr>error := None\<rparr>\<rparr>"

text \<open>An \<open>Error\<close> object made with \<open>new Error(msg)\<close>: a message and nothing else.\<close>

definition new_Error :: "string \<Rightarrow> raw_error" where
  "new_Error msg = \<lparr>err_code = None, err_message = Some msg, err_reason = None\<rparr>"

definition getErrorMessage :: "raw_error \<Rightarrow> string" where
  "getErrorMessage e =
     (if err_code e = Some (NumCode 4001) then ''Connection rejected by user''
      else if err_code e = Some (NumCode (- 32002)) then ''Connection request already pending''
      else if truthy (err_message e) then the (err_message e)
      else ''An unexpected error occurred'')"

definition connect_failed :: "raw_error \<Rightarrow> ('p, 'g) hook \<Rightarrow> ('p, 'g) hook" where
  "connect_failed e w =
     w\<lparr>state := (state w)\<lparr>isConnecting := False, error := Some (getErrorMessage e)\<rparr>\<rparr>"

text \<open>
  \<open>connect\<close> is asynchronous. \<open>connect_begin\<close> is the part that runs when it is called, up
  to the first \<open>await\<close>: it clears the error, raises \<open>isConnecting\<close> and, when the wallet
  is present (\<open>has_ethereum\<close>), sends \<open>eth_requestAccounts\<close>; without a wallet it fails at
  once. Between two calls of \<open>connect\<close> made before the wallet answers nothing else of the
  hook runs, so the state after them is \<open>connect_begin\<close> applied twice.
\<close>

definition connect_begin :: "bool \<Rightarrow> ('p, 'g) hook \<Rightarrow> ('p, 'g) hook" where
  "connect_begin has_ethereum w =
     (let w1 = clearError w;
          w2 = w1\<lparr>state := (state w1)\<lparr>isConnecting := True\<rparr>\<rparr>
      in if \<not> has_ethereum
         then connect_failed (new_Error ''MetaMask not detected. Please install MetaMask.'') w2
         else w2\<lparr>sent := sent w2 @ [eth_requestAccounts]\<rparr>)"

definition disconnect :: "('p, 'g) hook \<Rightarrow> ('p, 'g) hook" where
  "disconnect w =
     w\<lparr>state := (state w)\<lparr>address := None, provider := None, signer := None,
                           chainId := None, error := None\<rparr>,
       localStorage := (localStorage w)(''walletConnected'' := None)\<rparr>"



section \<open>Transactions\<close>


subsection \<open>TransactionManager (contract-calls recipe)\<close>











subsection \<open>SecureTransactionService.executeSecureTransaction\<close>




subsection \<open>multicall\<close>

text \<open>
  A promise of a batch after \<open>Promise.allSettled\<close>. A call's value is \<open>Some v\<close>; \<open>None\<close> is
  \<open>null\<close>.
\<close>

datatype 'a promise_settled = fulfilled "'a option" | rejected raw_error

text \<open>
  The mapped function of a batch: the call is run (\<open>run c\<close> is what the contract method
  gives for the call \<open>c\<close>) inside a \<open>try\<close>, and a failure becomes the value \<open>null\<close>.
\<close>

definition batch_promise :: "('c \<Rightarrow> raw_error + 'a) \<Rightarrow> 'c \<Rightarrow> 'a promise_settled" where
  "batch_promise run c = (case run c of Inr v \<Rightarrow> fulfilled (Some v) | Inl e \<Rightarrow> fulfilled None)"

definition push_result :: "'a promise_settled \<Rightarrow> 'a option" where
  "push_result r = (case r of fulfilled v \<Rightarrow> v | rejected e \<Rightarrow> None)"

text \<open>
  The loop \<open>for (i = 0; i < calls.length; i += batchSize)\<close>. It does not end when the
  batch size is not positive and there is a call, so its result is optional: \<open>None\<close> is a
  loop that never returns.
\<close>

partial_function (option) multicall_loop ::
  "('c \<Rightarrow> raw_error + 'a) \<Rightarrow> 'c list \<Rightarrow> int \<Rightarrow> int \<Rightarrow> 'a option list
   \<Rightarrow> 'a option list option" where
  "multicall_loop run calls batchSize i results =
     (if i < int (length calls)
      then multicall_loop run calls batchSize (i + batchSize)
             (results @ map push_result
                          (map (batch_promise run) (js_slice calls i (Some (i + batchSize)))))
      else Some results)"

definition multicall ::
  "('c \<Rightarrow> raw_error + 'a) \<Rightarrow> 'c list \<Rightarrow> int option \<Rightarrow> 'a option list option" where
  "multicall run calls batchSize =
     multicall_loop run calls (case batchSize of None \<Rightarrow> 10 | Some b \<Rightarrow> b) 0 []"

section \<open>Vocabulary of the properties\<close>

subsection \<open>Signals of a failure value\<close>








subsection \<open>Runs of the retry helper\<close>

text \<open>What the first \<open>n\<close> invocations of an operation give, started in state \<open>s\<close>.\<close>

fun op_trace :: "('s \<Rightarrow> (failure + 'a) \<times> 's) \<Rightarrow> 's \<Rightarrow> nat \<Rightarrow> (failure + 'a) list" where
  "op_trace operation s 0 = []"
| "op_trace operation s (Suc n) =
     (case operation s of (x, s') \<Rightarrow> x # op_trace operation s' n)"

text \<open>
  An invocation after which the helper may go on: it failed, the failure is not a user
  rejection, and the retry predicate (when given) accepts the classified error.
\<close>

definition may_continue :: "(Web3Error \<Rightarrow> bool) option \<Rightarrow> failure + 'a \<Rightarrow> bool" where
  "may_continue shouldRetry x =
     (case x of
        Inr v \<Rightarrow> False
      | Inl f \<Rightarrow> etype (parse f) \<noteq> USER_REJECTED
                 \<and> (case shouldRetry of None \<Rightarrow> True | Some p \<Rightarrow> p (parse f)))"

text \<open>How the helper settles on the invocation it stops at.\<close>

definition settles :: "failure + 'a \<Rightarrow> 'a settled" where
  "settles x = (case x of Inr v \<Rightarrow> Resolved v | Inl f \<Rightarrow> Rejected (parse f))"

text \<open>The shape of a run of the loop entered at \<open>attempt\<close> in state \<open>s\<close>.\<close>

definition retry_ok ::
  "ErrorHandler \<Rightarrow> ('s \<Rightarrow> (failure + 'a) \<times> 's) \<Rightarrow> (Web3Error \<Rightarrow> bool) option \<Rightarrow> int \<Rightarrow> 's
   \<Rightarrow> ('a, 's) retry_run \<Rightarrow> bool" where
  "retry_ok h operation shouldRetry attempt s r =
     (let n = length (invocations r) in
      1 \<le> n \<and> n \<le> nat (maxRetries h - attempt) + 1
      \<and> invocations r = op_trace operation s n
      \<and> waits r = map (\<lambda>k. retryDelay h * 2 ^ k) [nat attempt..<nat attempt + (n - 1)]
      \<and> list_all (may_continue shouldRetry) (butlast (invocations r))
      \<and> (n < nat (maxRetries h - attempt) + 1
           \<longrightarrow> \<not> may_continue shouldRetry (last (invocations r)))
      \<and> outcome r = settles (last (invocations r)))"

text \<open>An operation that fails with \<open>f\<close> at every invocation; its state counts them.\<close>

definition always_failing :: "failure \<Rightarrow> nat \<Rightarrow> (failure + nat) \<times> nat" where
  "always_failing f k = (Inl f, Suc k)"

text \<open>An operation that fails with \<open>f\<close> twice and then gives the value \<open>v\<close>.\<close>

definition failing_twice :: "failure \<Rightarrow> nat \<Rightarrow> nat \<Rightarrow> (failure + nat) \<times> nat" where
  "failing_twice f v k = (if k < 2 then Inl f else Inr v, Suc k)"

subsection \<open>The hook at start, the messages of a failed switch, the result of a call\<close>

text \<open>The hook before anything has happened.\<close>

definition initial_hook :: "('p, 'g) hook" where
  "initial_hook = \<lparr>state = initial_WalletState, localStorage = Map.empty, sent = []\<rparr>"


text \<open>What \<open>multicall\<close> reports for one call: its value, or \<open>null\<close> when it fails.\<close>

definition call_result :: "('c \<Rightarrow> raw_error + 'a) \<Rightarrow> 'c \<Rightarrow> 'a option" where
  "call_result run c = (case run c of Inr v \<Rightarrow> Some v | Inl e \<Rightarrow> None)"

section \<open>Properties\<close>

subsection \<open>Gas buffer\<close>

lemma bigint_div_nonneg: "0 \<le> a \<Longrightarrow> 0 < b \<Longrightarrow> bigint_div a b = a div b"
  by (cases "a = 0") (simp_all add: bigint_div_def)

text \<open>
  C7: with the default safety margin the submitted limit is the estimate times
  (100 + 20), divided by 100 in integer arithmetic (the quotient of \<open>bigint\<close> division,
  which for an estimate that is not negative is \<open>div\<close>); an estimate of 100000 units
  gives exactly 120000.
\<close>

theorem estimateGasWithBuffer_default:
  "estimateGasWithBuffer (Inr g) None = Inr (bigint_div (g * (100 + 20)) 100)
   \<and> (0 \<le> g \<longrightarrow> estimateGasWithBuffer (Inr g) None = Inr (g * (100 + 20) div 100))
   \<and> estimateGasWithBuffer (Inr 100000) None = Inr 120000"
  using bigint_div_nonneg [of "g * 120" 100]
  by (simp add: estimateGasWithBuffer_def bigint_div_def)

theorem estimateGasWithBuffer_default_witness:
  "(0::int) \<le> 100000
   \<and> estimateGasWithBuffer (Inr 100000) None = Inr (100000 * (100 + 20) div 100)"
  using estimateGasWithBuffer_default [of 100000] by (simp add: bigint_div_def)

subsection \<open>Error classification\<close>





subsection \<open>Retry hint\<close>

text \<open>
  C2, as stated, fails on a contract error whose message mentions a timeout:
  \<open>isRetryable\<close> is true for it.
\<close>

theorem isRetryable_counterexample:
  "etype \<lparr>etype = CONTRACT_ERROR, message = ''Contract reverted: timeout'',
           code = Some (StrCode ''CONTRACT_ERROR''), originalError = None\<rparr> = CONTRACT_ERROR
   \<and> isRetryable \<lparr>etype = CONTRACT_ERROR, message = ''Contract reverted: timeout'',
                   code = Some (StrCode ''CONTRACT_ERROR''), originalError = None\<rparr>"
  by code_simp

text \<open>
  C2, amended: \<open>isRetryable\<close> is true exactly when the kind is \<open>NETWORK_ERROR\<close> or
  \<open>UNKNOWN_ERROR\<close>, or the kind is \<open>CONTRACT_ERROR\<close> and the message, in lower case,
  includes \<open>network\<close>, \<open>timeout\<close> or \<open>connection\<close>. It is false for every error of kind
  \<open>USER_REJECTED\<close>, \<open>INSUFFICIENT_FUNDS\<close> or \<open>VALIDATION_ERROR\<close>, whatever the message.
\<close>

theorem isRetryable_iff:
  "isRetryable e =
     (etype e = NETWORK_ERROR \<or> etype e = UNKNOWN_ERROR
      \<or> (etype e = CONTRACT_ERROR
          \<and> (js_includes (toLowerCase (message e)) ''network''
              \<or> js_includes (toLowerCase (message e)) ''timeout''
              \<or> js_includes (toLowerCase (message e)) ''connection'')))
   \<and> (etype e \<in> {USER_REJECTED, INSUFFICIENT_FUNDS, VALIDATION_ERROR} \<longrightarrow> \<not> isRetryable e)"
  by (auto simp add: isRetryable_def)

theorem isRetryable_iff_witness:
  "etype \<lparr>etype = USER_REJECTED, message = ''network timeout'',
           code = Some (NumCode 4001), originalError = None\<rparr>
     \<in> {USER_REJECTED, INSUFFICIENT_FUNDS, VALIDATION_ERROR}
   \<and> \<not> isRetryable \<lparr>etype = USER_REJECTED, message = ''network timeout'',
                    code = Some (NumCode 4001), originalError = None\<rparr>
   \<and> isRetryable \<lparr>etype = NETWORK_ERROR, message = ''Network connection failed'',
                   code = None, originalError = None\<rparr>"
  using isRetryable_iff [of "\<lparr>etype = USER_REJECTED, message = ''network timeout'',
                    code = Some (NumCode 4001), originalError = None\<rparr>"]
    isRetryable_iff [of "\<lparr>etype = NETWORK_ERROR, message = ''Network connection failed'',
                    code = None, originalError = None\<rparr>"]
  by simp

subsection \<open>Retry helper\<close>

declare handleWithRetry_loop.simps [simp del]

lemma length_op_trace [simp]: "length (op_trace operation s n) = n"
  by (induction n arbitrary: s) (auto split: prod.splits)

lemma loop_stop:
  assumes "attempt \<le> maxRetries h" and "operation s = (x, s')"
    and "\<not> may_continue shouldRetry x \<or> attempt = maxRetries h"
  shows "handleWithRetry_loop h operation shouldRetry attempt lastError s =
           \<lparr>outcome = settles x, invocations = [x], waits = [], final = s'\<rparr>"
  using assms
  by (subst handleWithRetry_loop.simps)
     (auto simp: may_continue_def settles_def split: sum.splits option.splits)

lemma loop_continue:
  assumes "attempt < maxRetries h" and "operation s = (x, s')"
    and "may_continue shouldRetry x"
  shows "\<exists>f. x = Inl f \<and> handleWithRetry_loop h operation shouldRetry attempt lastError s =
           (handleWithRetry_loop h operation shouldRetry (attempt + 1) (Some (parse f)) s')
             \<lparr>invocations := x # invocations (handleWithRetry_loop h operation shouldRetry
                                    (attempt + 1) (Some (parse f)) s'),
              waits := retryDelay h * 2 ^ nat attempt
                       # waits (handleWithRetry_loop h operation shouldRetry
                                  (attempt + 1) (Some (parse f)) s')\<rparr>"
  using assms
  by (subst handleWithRetry_loop.simps)
     (auto simp: may_continue_def Let_def split: sum.splits option.splits)

lemma loop_ok:
  "0 \<le> attempt \<Longrightarrow> attempt \<le> maxRetries h \<Longrightarrow>
   retry_ok h operation shouldRetry attempt s
     (handleWithRetry_loop h operation shouldRetry attempt lastError s)"
proof (induction "nat (maxRetries h - attempt)" arbitrary: attempt lastError s)
  case 0
  then have eq: "attempt = maxRetries h" by simp
  obtain x s' where op: "operation s = (x, s')" by (cases "operation s")
  show ?case
    using loop_stop [where h = h and operation = operation and s = s and x = x and s' = s'
        and attempt = attempt and shouldRetry = shouldRetry and lastError = lastError] eq op
    by (simp add: retry_ok_def)
next
  case (Suc k)
  then have lt: "attempt < maxRetries h" by simp
  obtain x s' where op: "operation s = (x, s')" by (cases "operation s")
  show ?case
  proof (cases "may_continue shouldRetry x")
    case False
    then show ?thesis
      using loop_stop [where h = h and operation = operation and s = s and x = x and s' = s'
          and attempt = attempt and shouldRetry = shouldRetry and lastError = lastError]
        op Suc.prems
      by (simp add: retry_ok_def)
  next
    case True
    from loop_continue [where h = h and operation = operation and s = s and x = x and s' = s'
        and attempt = attempt and shouldRetry = shouldRetry and lastError = lastError]
      lt op True
    obtain f where
      x: "x = Inl f" and
      unfold: "handleWithRetry_loop h operation shouldRetry attempt lastError s =
           (handleWithRetry_loop h operation shouldRetry (attempt + 1) (Some (parse f)) s')
             \<lparr>invocations := x # invocations (handleWithRetry_loop h operation shouldRetry
                                    (attempt + 1) (Some (parse f)) s'),
              waits := retryDelay h * 2 ^ nat attempt
                       # waits (handleWithRetry_loop h operation shouldRetry
                                  (attempt + 1) (Some (parse f)) s')\<rparr>"
      by blast
    define r where "r = handleWithRetry_loop h operation shouldRetry (attempt + 1) (Some (parse f)) s'"
    have k: "k = nat (maxRetries h - (attempt + 1))" using Suc.hyps(2) by simp
    have ih: "retry_ok h operation shouldRetry (attempt + 1) s' r"
      unfolding r_def using Suc.hyps(1) [OF k] Suc.prems lt by simp
    define n where "n = length (invocations r)"
    have n1: "1 \<le> n" and n2: "n \<le> nat (maxRetries h - (attempt + 1)) + 1"
      and tr: "invocations r = op_trace operation s' n"
      and wt: "waits r = map (\<lambda>k. retryDelay h * 2 ^ k)
                           [nat (attempt + 1)..<nat (attempt + 1) + (n - 1)]"
      and cont: "list_all (may_continue shouldRetry) (butlast (invocations r))"
      and early: "n < nat (maxRetries h - (attempt + 1)) + 1
                  \<longrightarrow> \<not> may_continue shouldRetry (last (invocations r))"
      and out: "outcome r = settles (last (invocations r))"
      using ih by (simp_all add: retry_ok_def Let_def n_def)
    have ne: "invocations r \<noteq> []" using n1 n_def by auto
    have early': "Suc n < nat (maxRetries h - attempt) + 1
                  \<longrightarrow> \<not> may_continue shouldRetry (last (invocations r))"
      using early lt by auto
    have nat_eq: "nat (attempt + 1) = Suc (nat attempt)" using Suc.prems(1) by simp
    have w: "retryDelay h * 2 ^ nat attempt # waits r =
             map (\<lambda>k. retryDelay h * 2 ^ k) [nat attempt..<nat attempt + n]"
      using wt n1 nat_eq by (simp add: upt_conv_Cons)
    have len: "Suc n \<le> nat (maxRetries h - attempt) + 1"
      using n2 lt by simp
    show ?thesis
      unfolding unfold r_def [symmetric]
      using n1 len tr w cont out ne op True early'
      by (simp add: retry_ok_def Let_def n_def [symmetric])
  qed
qed

lemma take_op_trace:
  "n \<le> m \<Longrightarrow> take n (op_trace operation s m) = op_trace operation s n"
proof (induction n arbitrary: s m)
  case 0
  then show ?case by simp
next
  case (Suc n)
  then obtain m' where m: "m = Suc m'" and le: "n \<le> m'" by (cases m) auto
  show ?case using Suc.IH [OF le] by (simp add: m split: prod.splits)
qed

text \<open>
  C3, as stated, fails for a handler built with a negative retry count: the loop makes
  no attempt and the final \<open>throw lastError!\<close> rejects with \<open>undefined\<close>, which is not a
  classified error.
\<close>

theorem handleWithRetry_counterexample:
  "maxRetries (new_ErrorHandler (Some (- 1)) None) = - 1
   \<and> invocations (handleWithRetry (new_ErrorHandler (Some (- 1)) None)
        (always_failing (Raw (new_Error ''boom''))) None 0) = []
   \<and> outcome (handleWithRetry (new_ErrorHandler (Some (- 1)) None)
        (always_failing (Raw (new_Error ''boom''))) None 0) = RejectedUndefined"
  by (simp add: handleWithRetry_def handleWithRetry_loop.simps new_ErrorHandler_def)

text \<open>
  C3, amended: for a retry count that is not negative, every operation and every
  optional retry predicate, the helper invokes the operation at least once and at most
  \<open>maxRetries + 1\<close> times (4 with the default handler, and exactly that many when every
  failure may be retried); the invocations are the operation's successive results, all
  but the last of them failures; the delay after the failed attempt \<open>k\<close> is the base
  delay times \<open>2 ^ k\<close>; a failure classified as a user rejection, or one the predicate
  refuses, is the last invocation and the helper rejects with its classified error, so a
  user rejection at the first attempt means exactly one attempt; the helper stops before
  the attempts are exhausted only on a value, a user rejection or a refused error; and
  it settles with the last invocation: its value, or its failure as classified by
  \<open>parse\<close>.
\<close>

theorem handleWithRetry_attempts:
  assumes "0 \<le> maxRetries h"
  shows "let r = handleWithRetry h operation shouldRetry s; n = length (invocations r) in
     1 \<le> n \<and> n \<le> nat (maxRetries h) + 1
     \<and> (h = new_ErrorHandler None None \<longrightarrow> n \<le> 4)
     \<and> invocations r = op_trace operation s n
     \<and> waits r = map (\<lambda>attempt. retryDelay h * 2 ^ attempt) [0..<n - 1]
     \<and> (\<forall>i<n - 1. \<exists>f. invocations r ! i = Inl f)
     \<and> (\<forall>i<n. \<forall>f. invocations r ! i = Inl f
            \<and> (etype (parse f) = USER_REJECTED
                \<or> (\<exists>p. shouldRetry = Some p \<and> \<not> p (parse f)))
          \<longrightarrow> i = n - 1 \<and> outcome r = Rejected (parse f))
     \<and> (\<forall>f. fst (operation s) = Inl f \<and> etype (parse f) = USER_REJECTED
          \<longrightarrow> n = 1 \<and> outcome r = Rejected (parse f))
     \<and> (n < nat (maxRetries h) + 1 \<longrightarrow>
          (\<exists>v. last (invocations r) = Inr v)
          \<or> (\<exists>f. last (invocations r) = Inl f
                \<and> (etype (parse f) = USER_REJECTED
                    \<or> (\<exists>p. shouldRetry = Some p \<and> \<not> p (parse f)))))
     \<and> (list_all (may_continue shouldRetry) (op_trace operation s (nat (maxRetries h) + 1))
          \<longrightarrow> n = nat (maxRetries h) + 1)
     \<and> (\<forall>f. last (invocations r) = Inl f \<longrightarrow> outcome r = Rejected (parse f))
     \<and> (\<forall>v. last (invocations r) = Inr v \<longrightarrow> outcome r = Resolved v)"
proof -
  define r where "r = handleWithRetry h operation shouldRetry s"
  define n where "n = length (invocations r)"
  have ok: "retry_ok h operation shouldRetry 0 s r"
    unfolding r_def handleWithRetry_def using loop_ok [of 0 h] assms by simp
  then have n1: "1 \<le> n" and n2: "n \<le> nat (maxRetries h) + 1"
    and tr: "invocations r = op_trace operation s n"
    and wt: "waits r = map (\<lambda>k. retryDelay h * 2 ^ k) [0..<n - 1]"
    and cont: "list_all (may_continue shouldRetry) (butlast (invocations r))"
    and early: "n < nat (maxRetries h) + 1
                \<longrightarrow> \<not> may_continue shouldRetry (last (invocations r))"
    and out: "outcome r = settles (last (invocations r))"
    by (simp_all add: retry_ok_def Let_def n_def)
  have ne: "invocations r \<noteq> []" using n1 n_def by auto
  have dflt: "h = new_ErrorHandler None None \<longrightarrow> n \<le> 4"
    using n2 by (auto simp: new_ErrorHandler_def)
  have inner: "may_continue shouldRetry (invocations r ! i)" if "i < n - 1" for i
  proof -
    from that have "butlast (invocations r) ! i = invocations r ! i"
      and "i < length (butlast (invocations r))"
      by (simp_all add: nth_butlast n_def)
    with cont show ?thesis by (auto simp add: list_all_length)
  qed
  have fails: "\<forall>i<n - 1. \<exists>f. invocations r ! i = Inl f"
  proof (intro allI impI)
    fix i assume "i < n - 1"
    from inner [OF this] show "\<exists>f. invocations r ! i = Inl f"
      by (cases "invocations r ! i") (simp_all add: may_continue_def)
  qed
  have stop: "i = n - 1 \<and> outcome r = Rejected (parse f)"
    if "i < n" and "invocations r ! i = Inl f"
      and "etype (parse f) = USER_REJECTED \<or> (\<exists>p. shouldRetry = Some p \<and> \<not> p (parse f))"
    for i f
  proof -
    have nc: "\<not> may_continue shouldRetry (invocations r ! i)"
      using that(2,3) by (auto simp: may_continue_def)
    with inner [of i] have "\<not> i < n - 1" by blast
    with that(1) have i: "i = n - 1" by simp
    then have "last (invocations r) = Inl f"
      using that(2) ne by (simp add: last_conv_nth n_def)
    with out i show ?thesis by (simp add: settles_def)
  qed
  have first: "n = 1 \<and> outcome r = Rejected (parse f)"
    if "fst (operation s) = Inl f" and "etype (parse f) = USER_REJECTED" for f
  proof -
    obtain m where m: "n = Suc m" using n1 by (cases n) auto
    have "invocations r ! 0 = Inl f"
      using that(1) tr m by (simp split: prod.splits)
    with stop [of 0 f] that(2) n1 m show ?thesis by simp
  qed
  have before: "(\<exists>v. last (invocations r) = Inr v)
          \<or> (\<exists>f. last (invocations r) = Inl f
                \<and> (etype (parse f) = USER_REJECTED
                    \<or> (\<exists>p. shouldRetry = Some p \<and> \<not> p (parse f))))"
    if "n < nat (maxRetries h) + 1"
  proof -
    from early that have nc: "\<not> may_continue shouldRetry (last (invocations r))" by simp
    show ?thesis
    proof (cases "last (invocations r)")
      case (Inr v)
      then show ?thesis by simp
    next
      case (Inl f)
      with nc show ?thesis
        by (cases shouldRetry) (auto simp: may_continue_def)
    qed
  qed
  have full: "n = nat (maxRetries h) + 1"
    if all: "list_all (may_continue shouldRetry)
               (op_trace operation s (nat (maxRetries h) + 1))"
  proof (rule ccontr)
    assume "n \<noteq> nat (maxRetries h) + 1"
    with n2 have lt: "n < nat (maxRetries h) + 1" by simp
    with early have nc: "\<not> may_continue shouldRetry (last (invocations r))" by simp
    define T where "T = op_trace operation s (nat (maxRetries h) + 1)"
    have lenT: "length T = nat (maxRetries h) + 1"
      unfolding T_def by (rule length_op_trace)
    have "take n T = op_trace operation s n"
      unfolding T_def by (rule take_op_trace) (rule n2)
    with tr have inv: "invocations r = take n T" by (simp only:)
    have "last (invocations r) = invocations r ! (n - 1)"
      using ne by (simp add: last_conv_nth n_def)
    also have "\<dots> = T ! (n - 1)"
      unfolding inv using n1 by simp
    finally have l: "last (invocations r) = T ! (n - 1)" .
    have "n - 1 < length T" using lt lenT by simp
    moreover have "list_all (may_continue shouldRetry) T" using all by (simp only: T_def)
    ultimately have "may_continue shouldRetry (T ! (n - 1))"
      by (simp only: list_all_length)
    with l have "may_continue shouldRetry (last (invocations r))" by (simp only:)
    with nc show False by simp
  qed
  have lastl: "outcome r = Rejected (parse f)" if "last (invocations r) = Inl f" for f
    using out that by (simp add: settles_def)
  have lastr: "outcome r = Resolved v" if "last (invocations r) = Inr v" for v
    using out that by (simp add: settles_def)
  show ?thesis
    unfolding Let_def r_def [symmetric] n_def [symmetric]
    using n1 n2 dflt tr wt fails stop first before full lastl lastr by blast
qed

theorem handleWithRetry_attempts_witness:
  "0 \<le> maxRetries (new_ErrorHandler None None)
   \<and> (let r = handleWithRetry (new_ErrorHandler None None)
                (always_failing (Raw \<lparr>err_code = Some (StrCode ''NETWORK_ERROR''),
                                       err_message = None, err_reason = None\<rparr>)) None 0
       in length (invocations r) = 4 \<and> waits r = [1000, 2000, 4000]
          \<and> outcome r = Rejected (NetworkError None
                \<lparr>err_code = Some (StrCode ''NETWORK_ERROR''), err_message = None,
                 err_reason = None\<rparr>))
   \<and> (let r = handleWithRetry (new_ErrorHandler None None)
                (failing_twice (Raw \<lparr>err_code = Some (StrCode ''NETWORK_ERROR''),
                                      err_message = None, err_reason = None\<rparr>) 7) None 0
       in length (invocations r) = 3 \<and> waits r = [1000, 2000] \<and> outcome r = Resolved 7)
   \<and> (let r = handleWithRetry (new_ErrorHandler None None)
                (always_failing (Raw \<lparr>err_code = Some (NumCode 4001),
                                       err_message = None, err_reason = None\<rparr>))
                (Some (\<lambda>e. True)) 0
       in length (invocations r) = 1 \<and> waits r = []
          \<and> outcome r = Rejected (UserRejectedError None
                \<lparr>err_code = Some (NumCode 4001), err_message = None, err_reason = None\<rparr>))"
  using handleWithRetry_attempts [of "new_ErrorHandler None None"
          "always_failing (Raw \<lparr>err_code = Some (StrCode ''NETWORK_ERROR''),
                                       err_message = None, err_reason = None\<rparr>)" None 0]
    handleWithRetry_attempts [of "new_ErrorHandler None None"
          "failing_twice (Raw \<lparr>err_code = Some (StrCode ''NETWORK_ERROR''),
                                      err_message = None, err_reason = None\<rparr>) 7" None 0]
    handleWithRetry_attempts [of "new_ErrorHandler None None"
          "always_failing (Raw \<lparr>err_code = Some (NumCode 4001),
                                       err_message = None, err_reason = None\<rparr>)"
          "Some (\<lambda>e. True)" 0]
  by (simp add: handleWithRetry_def handleWithRetry_loop.simps new_ErrorHandler_def Let_def
      NetworkError_def UserRejectedError_def message_includes_def always_failing_def
      failing_twice_def)

subsection \<open>Error logger\<close>

lemma js_slice_last:
  "0 < k \<Longrightarrow> js_slice xs (- k) None = drop (length xs - nat k) xs"
  by (auto simp: js_slice_def Let_def max_def nat_diff_distrib' nat_add_distrib)

lemma logs_log:
  "logs (log now err ctx L) =
     drop (length (logs L) + 1 - 100)
       (logs L @ [\<lparr>entry_timestamp = now, entry_error = err, entry_context = ctx\<rparr>])"
  by (simp add: log_def Let_def js_slice_last)

lemma keep_last_snoc:
  "drop (length (drop (length acc - n) acc) + 1 - n) (drop (length acc - n) acc @ [x]) =
   drop (length (acc @ [x]) - n) (acc @ [x])"
  by (cases "length acc < n") (auto simp: Suc_diff_le)

lemma logger_fold:
  "logs L = drop (length acc - 100) acc \<Longrightarrow>
   logs (foldl logger_step L calls) =
     drop (length (logged_since_clear acc calls) - 100) (logged_since_clear acc calls)"
proof (induction calls arbitrary: L acc)
  case Nil
  then show ?case by simp
next
  case (Cons c calls)
  show ?case
  proof (cases c)
    case (Log now err ctx)
    let ?x = "\<lparr>entry_timestamp = now, entry_error = err, entry_context = ctx\<rparr>"
    have "logs (log now err ctx L) = drop (length (acc @ [?x]) - 100) (acc @ [?x])"
      using keep_last_snoc [of acc 100 ?x] Cons.prems by (simp add: logs_log)
    from Cons.IH [OF this] Log show ?thesis by simp
  next
    case ClearLogs
    have "logs (clearLogs L) = drop (length ([] :: log_entry list) - 100) []"
      by (simp add: clearLogs_def)
    from Cons.IH [OF this] ClearLogs show ?thesis by simp
  qed
qed

lemma logger_run_logs:
  "logs (logger_run calls) =
     drop (length (logged_since_clear [] calls) - 100) (logged_since_clear [] calls)"
  unfolding logger_run_def by (rule logger_fold) (simp add: new_ErrorLogger_def)

text \<open>
  C10 at the limit 0: \<open>slice(-0)\<close> is \<open>slice(0)\<close>, so \<open>getRecentErrors(0)\<close> on a log of one
  entry returns that entry where at most 0 entries were asked for.
\<close>

theorem getRecentErrors_zero_limit:
  "length (getRecentErrors (Some 0)
     (logger_run [Log 0 \<lparr>etype = UNKNOWN_ERROR, message = ''x'', code = None,
                          originalError = None\<rparr> None])) = 1"
  by (simp add: getRecentErrors_def logger_run_def log_def js_slice_def new_ErrorLogger_def)

text \<open>
  What holds of the logger for the limits the slip does not touch: after any sequence of
  \<open>log\<close> and \<open>clearLogs\<close> calls on a new logger the list holds at most 100 entries, the
  most recent of the entries logged since the last \<open>clearLogs\<close>; for every positive
  \<open>limit\<close>, \<open>getRecentErrors(limit)\<close> returns at most \<open>limit\<close> entries, the most recently
  logged ones; without an argument it returns the last 10.
\<close>

theorem logger_keeps_recent:
  "let L = logger_run calls; es = logged_since_clear [] calls in
     length (logs L) \<le> 100
     \<and> logs L = drop (length es - 100) es
     \<and> (0 < limit \<longrightarrow>
          length (getRecentErrors (Some limit) L) \<le> nat limit
          \<and> getRecentErrors (Some limit) L = drop (length es - min (nat limit) 100) es)
     \<and> getRecentErrors None L = drop (length es - 10) es"
proof -
  define es where "es = logged_since_clear [] calls"
  have l: "logs (logger_run calls) = drop (length es - 100) es"
    unfolding es_def by (rule logger_run_logs)
  have a: "length (logs (logger_run calls)) \<le> 100" by (simp add: l)
  have b: "getRecentErrors (Some limit) (logger_run calls) = drop (length es - min (nat limit) 100) es"
    and c: "length (getRecentErrors (Some limit) (logger_run calls)) \<le> nat limit"
    if "0 < limit"
  proof -
    have eq: "length es - 100 + (length (drop (length es - 100) es) - nat limit)
              = length es - min (nat limit) 100"
      by (simp add: min_def) arith
    show "getRecentErrors (Some limit) (logger_run calls) = drop (length es - min (nat limit) 100) es"
      using that eq by (simp add: getRecentErrors_def js_slice_last l add.commute)
    then show "length (getRecentErrors (Some limit) (logger_run calls)) \<le> nat limit"
      by simp
  qed
  have d: "getRecentErrors None (logger_run calls) = drop (length es - 10) es"
  proof -
    have eq: "length es - 100 + (length (drop (length es - 100) es) - 10) = length es - 10"
      by simp
    show ?thesis
      using eq by (simp add: getRecentErrors_def js_slice_last l add.commute)
  qed
  show ?thesis
    unfolding Let_def es_def [symmetric] using a l b c d by blast
qed

theorem logger_keeps_recent_witness:
  "(0::int) < 2
   \<and> (let L = logger_run
              [Log 1 \<lparr>etype = UNKNOWN_ERROR, message = ''a'', code = None, originalError = None\<rparr>
                 None,
               ClearLogs,
               Log 2 \<lparr>etype = UNKNOWN_ERROR, message = ''b'', code = None, originalError = None\<rparr>
                 None,
               Log 3 \<lparr>etype = NETWORK_ERROR, message = ''c'', code = None, originalError = None\<rparr>
                 (Some ''send''),
               Log 4 \<lparr>etype = UNKNOWN_ERROR, message = ''d'', code = None, originalError = None\<rparr>
                 None]
       in map entry_timestamp (getRecentErrors (Some 2) L) = [3, 4]
          \<and> map entry_timestamp (logs L) = [2, 3, 4])"
  using logger_keeps_recent [of
          "[Log 1 \<lparr>etype = UNKNOWN_ERROR, message = ''a'', code = None, originalError = None\<rparr>
                 None,
               ClearLogs,
               Log 2 \<lparr>etype = UNKNOWN_ERROR, message = ''b'', code = None, originalError = None\<rparr>
                 None,
               Log 3 \<lparr>etype = NETWORK_ERROR, message = ''c'', code = None, originalError = None\<rparr>
                 (Some ''send''),
               Log 4 \<lparr>etype = UNKNOWN_ERROR, message = ''d'', code = None, originalError = None\<rparr>
                 None]" 2]
  by (simp add: Let_def)

subsection \<open>Wallet hook\<close>

text \<open>
  C4, as stated, fails when a connect is in flight: \<open>disconnect\<close> leaves \<open>isConnecting\<close>
  true, so the state is not the empty one.
\<close>

theorem disconnect_counterexample:
  "isConnecting (state (connect_begin True (initial_hook :: (nat, nat) hook)))
   \<and> isConnecting (state (disconnect (connect_begin True (initial_hook :: (nat, nat) hook))))
   \<and> state (disconnect (connect_begin True (initial_hook :: (nat, nat) hook)))
       \<noteq> initial_WalletState"
  by (simp add: disconnect_def connect_begin_def clearError_def initial_hook_def
      initial_WalletState_def Let_def)

text \<open>
  C4, amended: for every prior state \<open>disconnect\<close> clears \<open>address\<close>, \<open>provider\<close>,
  \<open>signer\<close>, \<open>chainId\<close> and \<open>error\<close>, leaves \<open>isConnecting\<close> as it was (so the state is
  the empty one when no connect is in flight), removes the session-restoration marker
  and no other key, and sends nothing to the wallet. It has no failing branch.
\<close>

theorem disconnect_resets:
  "state (disconnect w) =
     \<lparr>address = None, provider = None, signer = None, chainId = None,
      isConnecting = isConnecting (state w), error = None\<rparr>
   \<and> (\<not> isConnecting (state w) \<longrightarrow> state (disconnect w) = initial_WalletState)
   \<and> localStorage (disconnect w) ''walletConnected'' = None
   \<and> (\<forall>k. k \<noteq> ''walletConnected'' \<longrightarrow> localStorage (disconnect w) k = localStorage w k)
   \<and> sent (disconnect w) = sent w"
  by (simp add: disconnect_def initial_WalletState_def)

theorem disconnect_resets_witness:
  "\<not> isConnecting (state \<lparr>state = \<lparr>address = Some ''0xabc'', provider = Some (1::nat),
         signer = Some (2::nat), chainId = Some 1, isConnecting = False, error = Some ''old''\<rparr>,
       localStorage = [''walletConnected'' \<mapsto> ''true'', ''theme'' \<mapsto> ''dark''], sent = [eth_requestAccounts]\<rparr>)
   \<and> state (disconnect \<lparr>state = \<lparr>address = Some ''0xabc'', provider = Some (1::nat),
         signer = Some (2::nat), chainId = Some 1, isConnecting = False, error = Some ''old''\<rparr>,
       localStorage = [''walletConnected'' \<mapsto> ''true'', ''theme'' \<mapsto> ''dark''], sent = [eth_requestAccounts]\<rparr>)
      = initial_WalletState
   \<and> localStorage (disconnect \<lparr>state = \<lparr>address = Some ''0xabc'', provider = Some (1::nat),
         signer = Some (2::nat), chainId = Some 1, isConnecting = False, error = Some ''old''\<rparr>,
       localStorage = [''walletConnected'' \<mapsto> ''true'', ''theme'' \<mapsto> ''dark''], sent = [eth_requestAccounts]\<rparr>) ''theme''
      = Some ''dark''"
  using disconnect_resets [of "\<lparr>state = \<lparr>address = Some ''0xabc'', provider = Some (1::nat),
         signer = Some (2::nat), chainId = Some 1, isConnecting = False, error = Some ''old''\<rparr>,
       localStorage = [''walletConnected'' \<mapsto> ''true'', ''theme'' \<mapsto> ''dark''], sent = [eth_requestAccounts]\<rparr>"]
  by (simp add: initial_WalletState_def)

text \<open>
  C5, as stated, fails: a second \<open>connect\<close> begun while the first is in flight sends a
  second \<open>eth_requestAccounts\<close>.
\<close>

theorem connect_counterexample:
  "isConnecting (state (connect_begin True (initial_hook :: (nat, nat) hook)))
   \<and> sent (connect_begin True (connect_begin True (initial_hook :: (nat, nat) hook)))
       = [eth_requestAccounts, eth_requestAccounts]"
  by (simp add: connect_begin_def clearError_def initial_hook_def Let_def)

lemma sent_connect_begin:
  "sent (connect_begin True w) = sent w @ [eth_requestAccounts]"
  by (simp add: connect_begin_def clearError_def Let_def)

text \<open>
  C5, amended: \<open>connect\<close> has no guard for a connect in flight. Every call made with the
  wallet present raises \<open>isConnecting\<close> and sends an \<open>eth_requestAccounts\<close> of its own when
  it is called, whatever \<open>isConnecting\<close> was; so two calls made before either is answered
  send two account requests.
\<close>

theorem connect_requests:
  "sent (connect_begin True w) = sent w @ [eth_requestAccounts]
   \<and> isConnecting (state (connect_begin True w))
   \<and> sent (connect_begin True (connect_begin True w))
       = sent w @ [eth_requestAccounts, eth_requestAccounts]"
  by (simp add: sent_connect_begin)
     (simp add: connect_begin_def clearError_def Let_def)




subsection \<open>Transactions\<close>






subsection \<open>Batched calls\<close>

lemma push_batch: "push_result (batch_promise run c) = call_result run c"
  by (simp add: push_result_def batch_promise_def call_result_def split: sum.splits)

lemma js_slice_batch:
  "0 \<le> i \<Longrightarrow> 0 < b \<Longrightarrow> i < int (length xs) \<Longrightarrow>
   js_slice xs i (Some (i + b)) = take (nat b) (drop (nat i) xs)"
  by (auto simp: js_slice_def Let_def min_def)

lemma multicall_loop_eq:
  "0 < b \<Longrightarrow> 0 \<le> i \<Longrightarrow>
   multicall_loop run calls b i results =
     Some (results @ map (call_result run) (drop (nat i) calls))"
proof (induction "length calls - nat i" arbitrary: i results rule: less_induct)
  case less
  show ?case
  proof (cases "i < int (length calls)")
    case False
    then show ?thesis
      by (subst multicall_loop.simps) simp
  next
    case True
    have smaller: "length calls - nat (i + b) < length calls - nat i"
      using True less.prems by linarith
    have ih: "multicall_loop run calls b (i + b)
                (results @ map (call_result run) (take (nat b) (drop (nat i) calls))) =
              Some ((results @ map (call_result run) (take (nat b) (drop (nat i) calls)))
                    @ map (call_result run) (drop (nat (i + b)) calls))"
      using less.hyps [OF smaller] less.prems by simp
    have split: "take (nat b) (drop (nat i) calls) @ drop (nat (i + b)) calls
                 = drop (nat i) calls"
    proof -
      have "nat (i + b) = nat b + nat i" using less.prems by linarith
      then have "drop (nat (i + b)) calls = drop (nat b) (drop (nat i) calls)"
        by (simp add: add.commute)
      then show ?thesis by (simp only: append_take_drop_id)
    qed
    have "multicall_loop run calls b i results =
          multicall_loop run calls b (i + b)
            (results @ map (call_result run) (take (nat b) (drop (nat i) calls)))"
      using True less.prems
      by (subst multicall_loop.simps) (simp add: js_slice_batch push_batch comp_def)
    also have "\<dots> = Some (results @ map (call_result run) (drop (nat i) calls))"
      unfolding ih using split by (simp flip: map_append)
    finally show ?thesis .
  qed
qed

text \<open>
  C8: for every list of calls and every positive batch size (and for the default size)
  \<open>multicall\<close> returns, and its result has the length of the input; its \<open>i\<close>-th entry
  is the value of the \<open>i\<close>-th call, or \<open>null\<close> when that call fails. No entry depends on
  another call.
\<close>

theorem multicall_results:
  assumes "0 < batchSize"
  shows "\<exists>results. multicall run calls (Some batchSize) = Some results
     \<and> length results = length calls
     \<and> (\<forall>i<length calls. results ! i =
           (case run (calls ! i) of Inr v \<Rightarrow> Some v | Inl e \<Rightarrow> None))
     \<and> multicall run calls None = Some results"
proof -
  have a: "multicall run calls (Some batchSize) = Some (map (call_result run) calls)"
    using assms multicall_loop_eq [of batchSize 0 run calls "[]"] by (simp add: multicall_def)
  have b: "multicall run calls None = Some (map (call_result run) calls)"
    using multicall_loop_eq [of 10 0 run calls "[]"] by (simp add: multicall_def)
  show ?thesis
    using a b by (simp add: call_result_def)
qed

theorem multicall_results_witness:
  "(0::int) < 10
   \<and> (\<exists>results.
        multicall (\<lambda>c::nat. if c = 14 then Inl (new_Error ''call failed'') else Inr (c * 2))
          [0..<25] (Some 10) = Some results
        \<and> length results = 25
        \<and> results ! 14 = None \<and> results ! 13 = Some 26 \<and> results ! 24 = Some 48)"
proof -
  have len: "length [0..<25::nat] = 25" by simp
  from multicall_results [of 10 "\<lambda>c::nat. if c = 14 then Inl (new_Error ''call failed'') else Inr (c * 2)" "[0..<25]"]
  obtain results where
    r: "multicall (\<lambda>c::nat. if c = 14 then Inl (new_Error ''call failed'') else Inr (c * 2))
          [0..<25] (Some 10) = Some results"
    and l: "length results = length [0..<25::nat]"
    and n: "\<forall>i<length [0..<25::nat]. results ! i =
           (case (if [0..<25::nat] ! i = 14 then Inl (new_Error ''call failed'')
                  else Inr ([0..<25] ! i * 2)) of Inr v \<Rightarrow> Some v | Inl e \<Rightarrow> None)"
    by auto
  have "results ! 14 = None" using n [rule_format, of 14] by simp
  moreover have "results ! 13 = Some 26" using n [rule_format, of 13] by simp
  moreover have "results ! 24 = Some 48" using n [rule_format, of 24] by simp
  ultimately show ?thesis using r l by simp
qed

end
